theory Spec2Isabelle
  imports Main
begin

section \<open>Failure values\<close>

text \<open>
  A Go \<^verbatim>\<open>error\<close> that is not nil is either a leaf value with an identity and a
  message (what \<^verbatim>\<open>errors.New\<close> allocates: the number stands for the address of
  the allocation, which is what \<^verbatim>\<open>==\<close> compares), or the value built by
  \<^verbatim>\<open>errors.Join\<close>, which keeps the joined values in order. A nil error is
  \<open>None\<close> of \<open>error option\<close>.
\<close>

datatype error = ErrorString nat string | JoinError "error list"

definition ErrStartContextDeadlineExceeded :: error where
  "ErrStartContextDeadlineExceeded = ErrorString 0 ''start context deadline exceeded''"

definition ErrStopContextDeadlineExceeded :: error where
  "ErrStopContextDeadlineExceeded = ErrorString 1 ''stop context deadline exceeded''"

text \<open>The newline byte that the joined message puts between two messages.\<close>

definition newline :: char where
  "newline = CHR 0x0A"

fun join_lines :: "string list \<Rightarrow> string" where
  "join_lines [] = []"
| "join_lines [s] = s"
| "join_lines (s # t # ts) = s @ newline # join_lines (t # ts)"

text \<open>The method \<^verbatim>\<open>Error()\<close>: the text of a failure.\<close>

fun Error :: "error \<Rightarrow> string" where
  "Error (ErrorString a s) = s"
| "Error (JoinError es) = join_lines (map Error es)"

text \<open>
  \<^verbatim>\<open>errors.Is(err, target)\<close> of the standard library: \<open>err\<close> is the target, or
  one of the values it was joined from is, recursively.
\<close>

fun errors_Is :: "error \<Rightarrow> error \<Rightarrow> bool" where
  "errors_Is (ErrorString a s) target = (ErrorString a s = target)"
| "errors_Is (JoinError es) target = (JoinError es = target \<or> list_ex (\<lambda>e. errors_Is e target) es)"

fun non_nil :: "'a option list \<Rightarrow> 'a list" where
  "non_nil [] = []"
| "non_nil (None # xs) = non_nil xs"
| "non_nil (Some x # xs) = x # non_nil xs"

text \<open>
  \<^verbatim>\<open>errors.Join(errs...)\<close> of the standard library: nil values are dropped; the
  result is nil when nothing is left, and the joined value otherwise.
\<close>

definition errors_Join :: "error option list \<Rightarrow> error option" where
  "errors_Join errs = (let es = non_nil errs in if es = [] then None else Some (JoinError es))"

text \<open>The failures a value was built from, left to right, with the joins opened.\<close>

fun leaves :: "error \<Rightarrow> error list" where
  "leaves (ErrorString a s) = [ErrorString a s]"
| "leaves (JoinError es) = concat (map leaves es)"

section \<open>Time, signals and the select statement\<close>

text \<open>
  Time is counted in ticks (a \<^verbatim>\<open>time.Duration\<close> is a number of nanoseconds, an
  integer that may be negative). The goroutine that runs \<^verbatim>\<open>Wait\<close> spends ticks
  only while it is blocked on a channel: it reaches its select in the tick in which it
  was called, and whatever happened up to and in that tick has happened when the select
  is entered.

  A context is the background context, a root signal that its owner cancels at a given
  tick (or never), or a context derived from a parent with a deadline. The channel of a
  derived context is closed by its own timer, or, when the parent is cancelled first,
  by the parent's cancellation: the parent's channel is closed first and the children
  are cancelled after it, which the second component of an instant counts.
\<close>

type_synonym instant = "nat \<times> nat"

datatype "context" = Background | External "nat option" | WithDeadline "context" nat

fun closes :: "context \<Rightarrow> instant option" where
  "closes Background = None"
| "closes (External c) = map_option (\<lambda>t. (t, 0)) c"
| "closes (WithDeadline parent d) =
     (case closes parent of
        None \<Rightarrow> Some (d, 0)
      | Some (t, h) \<Rightarrow> if d \<le> t then Some (d, 0) else Some (t, Suc h))"

text \<open>The tick at which \<^verbatim>\<open>ctx.Done()\<close> is closed, if ever.\<close>

definition done_at :: "context \<Rightarrow> nat option" where
  "done_at ctx = map_option fst (closes ctx)"

text \<open>\<^verbatim>\<open>context.WithTimeout(parent, d)\<close> called at tick \<open>now\<close>.\<close>

definition WithTimeout :: "context \<Rightarrow> nat \<Rightarrow> int \<Rightarrow> context" where
  "WithTimeout parent now d = WithDeadline parent (now + nat d)"

text \<open>Whether a context is \<open>anc\<close> or was derived from it.\<close>

fun derived_from :: "context \<Rightarrow> context \<Rightarrow> bool" where
  "derived_from (WithDeadline parent d) anc = (WithDeadline parent d = anc \<or> derived_from parent anc)"
| "derived_from ctx anc = (ctx = anc)"

text \<open>
  A \<^verbatim>\<open>select\<close> whose cases all receive from channels that are only ever closed.
  Entered at tick \<open>now\<close>: when some channels are closed already, the runtime takes one
  of those cases at random (\<open>seed\<close> is its random number). Otherwise the goroutine
  blocks and the case whose channel is closed first is taken (several closed at one
  instant: any of them); when no channel is ever closed it blocks for ever.
  The result is the case taken and the tick at which the select returns.
\<close>

fun closed_by :: "nat \<Rightarrow> instant option \<Rightarrow> bool" where
  "closed_by now None = False"
| "closed_by now (Some (t, h)) = (t \<le> now)"

fun not_after :: "instant option \<Rightarrow> instant option \<Rightarrow> bool" where
  "not_after None j = False"
| "not_after (Some i) None = True"
| "not_after (Some (t, h)) (Some (t', h')) = (t < t' \<or> (t = t' \<and> h \<le> h'))"

definition pick :: "nat \<Rightarrow> 'a list \<Rightarrow> 'a option" where
  "pick seed xs = (if xs = [] then None else Some (xs ! (seed mod length xs)))"

fun woken :: "'a \<times> instant option \<Rightarrow> ('a \<times> nat) option" where
  "woken (a, None) = None"
| "woken (a, Some (t, h)) = Some (a, t)"

definition selectgo :: "nat \<Rightarrow> nat \<Rightarrow> ('a \<times> instant option) list \<Rightarrow> ('a \<times> nat) option" where
  "selectgo now seed cases =
     (let ready = filter (\<lambda>c. closed_by now (snd c)) cases in
      if ready \<noteq> [] then map_option (\<lambda>c. (fst c, now)) (pick seed ready)
      else Option.bind
             (pick seed (filter (\<lambda>c. list_all (\<lambda>c'. not_after (snd c) (snd c')) cases) cases))
             woken)"

section \<open>Workers\<close>

text \<open>
  What one call of a registered function does in an execution: it returns after some
  ticks with a value, or it never returns. An initializer (\<^verbatim>\<open>type Start func() error\<close>)
  is called once, by its worker; a finalizer (\<^verbatim>\<open>type Stop func(ctx context.Context) error\<close>)
  is a function of the context it is given.
\<close>

datatype 'a call = Returns nat 'a | Blocks

type_synonym Start = "error option call"

type_synonym Stop = "context \<Rightarrow> error option call"

text \<open>
  The workers are launched at tick \<open>now\<close>, one goroutine for each call; a worker sends
  the failure of its call, if any, on the failure channel, whose capacity is the number
  of workers, so that no send blocks.
  \<open>wg_Wait\<close>: the tick at which \<^verbatim>\<open>wg.Wait()\<close> returns (all workers have returned),
  if it does.
\<close>

fun wg_Wait :: "nat \<Rightarrow> 'a call list \<Rightarrow> nat option" where
  "wg_Wait now [] = Some now"
| "wg_Wait now (Blocks # cs) = None"
| "wg_Wait now (Returns d r # cs) = map_option (max (now + d)) (wg_Wait now cs)"

text \<open>The sends on the failure channel: the tick of each and the failure sent.\<close>

fun posts :: "nat \<Rightarrow> error option call list \<Rightarrow> (nat \<times> error) list" where
  "posts now [] = []"
| "posts now (Returns d (Some e) # cs) = (now + d, e) # posts now cs"
| "posts now (Returns d None # cs) = posts now cs"
| "posts now (Blocks # cs) = posts now cs"

text \<open>
  The failures in the channel's buffer at tick \<open>t\<close>, in the order they were sent
  (workers that send in the same tick: in launch order).
\<close>

definition buffered :: "nat \<Rightarrow> nat \<Rightarrow> error option call list \<Rightarrow> error list" where
  "buffered now t cs = map snd (sort_key fst (filter (\<lambda>p. fst p \<le> t) (posts now cs)))"

section \<open>The group\<close>

text \<open>
  The options (the file of the functional options), the group, \<^verbatim>\<open>NewGroup\<close> and
  \<^verbatim>\<open>Add\<close>. The mutex of the group only serialises \<^verbatim>\<open>Add\<close> and is left out.
\<close>

record options =
  startTimeout :: int
  stopTimeout :: int

definition DefaultTimeout :: int where
  "DefaultTimeout = 15 * 1000000000"

definition defaultOptions :: options where
  "defaultOptions = \<lparr>startTimeout = DefaultTimeout, stopTimeout = DefaultTimeout\<rparr>"

type_synonym Option = "options \<Rightarrow> options"

definition WithStartTimeout :: "int \<Rightarrow> Option" where
  "WithStartTimeout v = (\<lambda>os. os\<lparr>startTimeout := v\<rparr>)"

definition WithStopTimeout :: "int \<Rightarrow> Option" where
  "WithStopTimeout v = (\<lambda>os. os\<lparr>stopTimeout := v\<rparr>)"

record Group =
  opts :: options
  starters :: "Start list"
  stoppers :: "Stop list"

definition NewGroup :: "Option list \<Rightarrow> Group" where
  "NewGroup options = \<lparr>opts = fold (\<lambda>opt os. opt os) options defaultOptions, starters = [], stoppers = []\<rparr>"

definition Add :: "Start \<Rightarrow> Stop \<Rightarrow> Group \<Rightarrow> Group" where
  "Add start stop g = g\<lparr>starters := starters g @ [start], stoppers := stoppers g @ [stop]\<rparr>"

text \<open>
  The state that \<^verbatim>\<open>Wait\<close> and \<^verbatim>\<open>stop\<close> change: the clock, and the number of
  times \<^verbatim>\<open>stop\<close> has been entered. The scheduler record holds the random numbers
  the runtime uses in the two select statements.
\<close>

record world =
  clock :: nat
  stop_calls :: nat

record scheduler =
  wait_seed :: nat
  stop_seed :: nat

datatype wait_case = CtxDone | StartCtxDone | StartersDone

datatype stop_case = StopCtxDone | StoppersDone

definition stopCtx :: "Group \<Rightarrow> nat \<Rightarrow> context" where
  "stopCtx g now = WithTimeout Background now (stopTimeout (opts g))"

definition stop_workers :: "Group \<Rightarrow> nat \<Rightarrow> error option call list" where
  "stop_workers g now = map (\<lambda>a. a (stopCtx g now)) (rev (stoppers g))"

text \<open>
  \<^verbatim>\<open>stop\<close> (group.go, lines 123 to 167). The result is \<open>None\<close> when it never returns.
  The context of the stop phase is made from the background context; the finalizers are
  launched from the last registered to the first. The select waits for the context or for
  \<^verbatim>\<open>done\<close>, which the closing goroutine closes, together with the failure channel, once
  every worker has returned. After the select,
  \<^verbatim>\<open>for err := range stopErrors\<close> receives until the failure channel is closed, so
  \<open>stop\<close> goes on only when every worker has returned.
\<close>

definition stop :: "Group \<Rightarrow> scheduler \<Rightarrow> world \<Rightarrow> (error option \<times> world) option" where
  "stop g sch w =
     (let now = clock w;
          w1 = w\<lparr>stop_calls := Suc (stop_calls w)\<rparr>;
          calls = stop_workers g now;
          closed = wg_Wait now calls
      in case selectgo now (stop_seed sch)
                [(StopCtxDone, closes (stopCtx g now)),
                 (StoppersDone, map_option (\<lambda>t. (t, 0)) closed)] of
           None \<Rightarrow> None
         | Some (c, t) \<Rightarrow>
             (case closed of
                None \<Rightarrow> None
              | Some td \<Rightarrow>
                  (let errs = (case c of StopCtxDone \<Rightarrow> [ErrStopContextDeadlineExceeded]
                                       | StoppersDone \<Rightarrow> [])
                              @ buffered now td calls;
                       w2 = w1\<lparr>clock := max t td\<rparr>
                   in if length errs = 0 then Some (None, w2)
                      else Some (errors_Join (map Some errs), w2))))"

definition startCtx :: "Group \<Rightarrow> context \<Rightarrow> nat \<Rightarrow> context" where
  "startCtx g ctx now = WithTimeout ctx now (startTimeout (opts g))"

text \<open>
  \<^verbatim>\<open>Wait\<close> (group.go, lines 61 to 117). The result is \<open>None\<close> when it never
  returns. The start context is derived from the caller's. In the third case of the select
  the failure channel is closed already (the closing goroutine closes it before
  \<^verbatim>\<open>done\<close>), and the loop over it receives every failure sent; with no failure,
  \<^verbatim>\<open><-ctx.Done()\<close> blocks until the caller's signal fires.
\<close>

definition Wait :: "Group \<Rightarrow> context \<Rightarrow> scheduler \<Rightarrow> world \<Rightarrow> (error option \<times> world) option" where
  "Wait g ctx sch w =
     (let now = clock w;
          calls = starters g;
          closed = wg_Wait now calls
      in case selectgo now (wait_seed sch)
                [(CtxDone, closes ctx),
                 (StartCtxDone, closes (startCtx g ctx now)),
                 (StartersDone, map_option (\<lambda>t. (t, 0)) closed)] of
           None \<Rightarrow> None
         | Some (CtxDone, t) \<Rightarrow> stop g sch (w\<lparr>clock := t\<rparr>)
         | Some (StartCtxDone, t) \<Rightarrow>
             (case stop g sch (w\<lparr>clock := t\<rparr>) of
                None \<Rightarrow> None
              | Some (err, w') \<Rightarrow>
                  if err \<noteq> None
                  then Some (errors_Join [Some ErrStartContextDeadlineExceeded, err], w')
                  else Some (Some ErrStartContextDeadlineExceeded, w'))
         | Some (StartersDone, t) \<Rightarrow>
             (let errs = buffered now t calls in
              if length errs > 0
              then (case stop g sch (w\<lparr>clock := t\<rparr>) of
                      None \<Rightarrow> None
                    | Some (stopErr, w') \<Rightarrow>
                        Some (errors_Join (map Some errs @ (if stopErr \<noteq> None then [stopErr] else [])), w'))
              else (case done_at ctx of
                      None \<Rightarrow> None
                    | Some c \<Rightarrow> stop g sch (w\<lparr>clock := max t c\<rparr>))))"

section \<open>Vocabulary of the statements and example executions\<close>

text \<open>
  \<open>precedes t u\<close>: the tick \<open>t\<close> comes strictly before the event at \<open>u\<close>; an event
  that never happens comes after every tick.
\<close>

fun precedes :: "nat \<Rightarrow> nat option \<Rightarrow> bool" where
  "precedes t None = True"
| "precedes t (Some u) = (t < u)"

text \<open>The lines of a text: the pieces between its newline bytes.\<close>

fun split_lines :: "string \<Rightarrow> string list" where
  "split_lines [] = [[]]"
| "split_lines (c # cs) =
     (if c = newline then [] # split_lines cs
      else (case split_lines cs of [] \<Rightarrow> [[c]] | l # ls \<Rightarrow> (c # l) # ls))"

definition w0 :: world where
  "w0 = \<lparr>clock = 0, stop_calls = 0\<rparr>"

definition seeds :: "nat \<Rightarrow> nat \<Rightarrow> scheduler" where
  "seeds a b = \<lparr>wait_seed = a, stop_seed = b\<rparr>"

text \<open>One component whose initializer is still running when the start deadline (50) fires.\<close>

definition slow_start_group :: Group where
  "slow_start_group = Add (Returns 100 None) (\<lambda>ctx. Returns 0 None) (NewGroup [WithStartTimeout 50])"

text \<open>Two components; both initializers fail, the second one first; one finalizer fails.\<close>

definition failing_group :: Group where
  "failing_group =
     Add (Returns 3 (Some (ErrorString 11 ''db down'')))
         (\<lambda>ctx. Returns 2 None)
       (Add (Returns 1 (Some (ErrorString 12 ''port taken'')))
            (\<lambda>ctx. Returns 4 (Some (ErrorString 13 ''flush failed'')))
          (NewGroup []))"

text \<open>One component that starts at once and stops in 7 ticks, under the default deadlines.\<close>

definition healthy_group :: Group where
  "healthy_group = Add (Returns 0 None) (\<lambda>ctx. Returns 7 None) (NewGroup [])"

text \<open>
  One component whose finalizer returns success after 100 ticks, under a stop deadline
  of 50.
\<close>

definition slow_stop_group :: Group where
  "slow_stop_group = Add (Returns 1 None) (\<lambda>ctx. Returns 100 None) (NewGroup [WithStopTimeout 50])"

text \<open>
  One component whose initializer takes 5 ticks, under the default deadlines.
\<close>

definition starting_group :: Group where
  "starting_group = Add (Returns 5 None) (\<lambda>ctx. Returns 0 None) (NewGroup [])"

text \<open>
  One component whose finalizer fails after 100 ticks, under a stop deadline of 50.
\<close>

definition late_group :: Group where
  "late_group =
     Add (Returns 0 None) (\<lambda>ctx. Returns 100 (Some (ErrorString 21 ''late'')))
       (NewGroup [WithStopTimeout 50])"

section \<open>Basic facts\<close>

lemmas model_defs =
  Wait_def stop_def selectgo_def pick_def Let_def startCtx_def stopCtx_def WithTimeout_def
  stop_workers_def buffered_def done_at_def errors_Join_def NewGroup_def Add_def
  defaultOptions_def DefaultTimeout_def WithStartTimeout_def WithStopTimeout_def
  w0_def seeds_def

lemma wg_Wait_ge: "wg_Wait now cs = Some td \<Longrightarrow> now \<le> td"
  by (induction now cs arbitrary: td rule: wg_Wait.induct) auto

lemma non_nil_Some: "non_nil (map Some xs @ ys) = xs @ non_nil ys"
  by (induction xs) auto

lemma errors_Join_Some: "xs \<noteq> [] \<Longrightarrow> errors_Join (map Some xs) = Some (JoinError xs)"
  using non_nil_Some [of xs "[]"] by (simp add: errors_Join_def)

lemma errors_Join_Some_append:
  "xs \<noteq> [] \<Longrightarrow> errors_Join (map Some xs @ [Some e]) = Some (JoinError (xs @ [e]))"
  by (simp add: errors_Join_def non_nil_Some)

lemma closes_startCtx:
  "closes (startCtx g ctx now) =
     (case closes ctx of
        None \<Rightarrow> Some (now + nat (startTimeout (opts g)), 0)
      | Some (t, h) \<Rightarrow> if now + nat (startTimeout (opts g)) \<le> t
                        then Some (now + nat (startTimeout (opts g)), 0) else Some (t, Suc h))"
  by (simp add: startCtx_def WithTimeout_def)

lemma closes_stopCtx: "closes (stopCtx g now) = Some (now + nat (stopTimeout (opts g)), 0)"
  by (simp add: stopCtx_def WithTimeout_def)

text \<open>Every return of \<open>stop\<close> has counted one entry.\<close>

lemma stop_counts: "stop g sch w = Some (e, w') \<Longrightarrow> stop_calls w' = Suc (stop_calls w)"
  by (auto simp: stop_def Let_def split: option.splits prod.splits if_splits)

lemma stop_counts_at:
  "stop g sch (w\<lparr>clock := t\<rparr>) = Some (e, w') \<Longrightarrow> stop_calls w' = Suc (stop_calls w)"
  using stop_counts [of g sch "w\<lparr>clock := t\<rparr>" e w'] by simp

subsection \<open>Which case a select takes\<close>

lemma not_after_total: "not_after (Some i) j \<or> not_after j (Some i)"
  by (cases i; cases j) auto

lemma later_not_closed: "\<not> not_after j (Some (t, h)) \<Longrightarrow> now < t \<Longrightarrow> \<not> closed_by now j"
  by (cases j) auto

lemma precedes_not_after: "precedes t (map_option fst i) \<Longrightarrow> \<not> not_after i (Some (t, h))"
  by (cases i) auto

lemma precedes_not_closed: "precedes t (map_option fst i) \<Longrightarrow> now \<le> t \<Longrightarrow> \<not> closed_by now i"
  by (cases i) auto

lemma selectgo_ready_2:
  "\<not> closed_by now i1 \<Longrightarrow> closed_by now i2 \<Longrightarrow> \<not> closed_by now i3 \<Longrightarrow>
   selectgo now seed [(a1, i1), (a2, i2), (a3, i3)] = Some (a2, now)"
  by (simp add: selectgo_def pick_def)

lemma selectgo_ready_3:
  "\<not> closed_by now i1 \<Longrightarrow> \<not> closed_by now i2 \<Longrightarrow> closed_by now i3 \<Longrightarrow>
   selectgo now seed [(a1, i1), (a2, i2), (a3, i3)] = Some (a3, now)"
  by (simp add: selectgo_def pick_def)

lemma selectgo_blocked_1:
  assumes "now < t" "\<not> not_after i2 (Some (t, h))" "\<not> not_after i3 (Some (t, h))"
  shows "selectgo now seed [(a1, Some (t, h)), (a2, i2), (a3, i3)] = Some (a1, t)"
proof -
  have "not_after (Some (t, h)) i2" "not_after (Some (t, h)) i3"
    using assms not_after_total [of "(t, h)"] by auto
  moreover have "\<not> closed_by now i2" "\<not> closed_by now i3"
    using assms later_not_closed by blast+
  ultimately show ?thesis
    using assms by (simp add: selectgo_def pick_def)
qed

lemma selectgo_blocked_2:
  assumes "now < t" "\<not> not_after i1 (Some (t, h))" "\<not> not_after i3 (Some (t, h))"
  shows "selectgo now seed [(a1, i1), (a2, Some (t, h)), (a3, i3)] = Some (a2, t)"
proof -
  have "not_after (Some (t, h)) i1" "not_after (Some (t, h)) i3"
    using assms not_after_total [of "(t, h)"] by auto
  moreover have "\<not> closed_by now i1" "\<not> closed_by now i3"
    using assms later_not_closed by blast+
  ultimately show ?thesis
    using assms by (simp add: selectgo_def pick_def)
qed

lemma selectgo_blocked_3:
  assumes "now < t" "\<not> not_after i1 (Some (t, h))" "\<not> not_after i2 (Some (t, h))"
  shows "selectgo now seed [(a1, i1), (a2, i2), (a3, Some (t, h))] = Some (a3, t)"
proof -
  have "not_after (Some (t, h)) i1" "not_after (Some (t, h)) i2"
    using assms not_after_total [of "(t, h)"] by auto
  moreover have "\<not> closed_by now i1" "\<not> closed_by now i2"
    using assms later_not_closed by blast+
  ultimately show ?thesis
    using assms by (simp add: selectgo_def pick_def)
qed

lemma selectgo2_ready_1:
  "closed_by now i1 \<Longrightarrow> \<not> closed_by now i2 \<Longrightarrow>
   selectgo now seed [(a1, i1), (a2, i2)] = Some (a1, now)"
  by (simp add: selectgo_def pick_def)

lemma selectgo2_ready_2:
  "\<not> closed_by now i1 \<Longrightarrow> closed_by now i2 \<Longrightarrow>
   selectgo now seed [(a1, i1), (a2, i2)] = Some (a2, now)"
  by (simp add: selectgo_def pick_def)

lemma selectgo2_blocked_1:
  assumes "now < t" "\<not> not_after i2 (Some (t, h))"
  shows "selectgo now seed [(a1, Some (t, h)), (a2, i2)] = Some (a1, t)"
proof -
  have "not_after (Some (t, h)) i2"
    using assms not_after_total [of "(t, h)"] by auto
  moreover have "\<not> closed_by now i2"
    using assms later_not_closed by blast
  ultimately show ?thesis
    using assms by (simp add: selectgo_def pick_def)
qed

lemma selectgo2_blocked_2:
  assumes "now < t" "\<not> not_after i1 (Some (t, h))"
  shows "selectgo now seed [(a1, i1), (a2, Some (t, h))] = Some (a2, t)"
proof -
  have "not_after (Some (t, h)) i1"
    using assms not_after_total [of "(t, h)"] by auto
  moreover have "\<not> closed_by now i1"
    using assms later_not_closed by blast
  ultimately show ?thesis
    using assms by (simp add: selectgo_def pick_def)
qed

text \<open>The select of \<open>Wait\<close>: the start deadline is the first event.\<close>

lemma select_deadline_first:
  assumes "precedes (now + nat (startTimeout (opts g))) (done_at ctx)"
    and "precedes (now + nat (startTimeout (opts g))) closed"
  shows "selectgo now seed
           [(CtxDone, closes ctx), (StartCtxDone, closes (startCtx g ctx now)),
            (StartersDone, map_option (\<lambda>t. (t, 0)) closed)]
         = Some (StartCtxDone, now + nat (startTimeout (opts g)))"
proof -
  define D where "D = now + nat (startTimeout (opts g))"
  have s: "closes (startCtx g ctx now) = Some (D, 0)"
    using assms(1) by (cases "closes ctx") (auto simp: closes_startCtx done_at_def D_def)
  have c: "precedes D (map_option fst (closes ctx))"
    using assms(1) by (simp add: done_at_def D_def)
  have d: "precedes D (map_option fst (map_option (\<lambda>t. (t, 0::nat)) closed))"
    using assms(2) by (simp add: D_def option.map_comp comp_def option.map_ident)
  have n: "now \<le> D" by (simp add: D_def)
  show ?thesis
  proof (cases "now < D")
    case True
    then show ?thesis
      unfolding D_def [symmetric] s
      using c d by (intro selectgo_blocked_2 precedes_not_after)
  next
    case False
    with n have "closed_by now (Some (D, 0))" by simp
    then show ?thesis
      unfolding D_def [symmetric] s
      using c d n False by (simp add: selectgo_ready_2 precedes_not_closed)
  qed
qed

text \<open>The caller's signal is the first event, and fires while \<open>Wait\<close> is blocked.\<close>

lemma select_cancel_first:
  assumes "closes ctx = Some (c, h)" and "now < c" and "c < now + nat (startTimeout (opts g))"
    and "precedes c closed"
  shows "selectgo now seed
           [(CtxDone, closes ctx), (StartCtxDone, closes (startCtx g ctx now)),
            (StartersDone, map_option (\<lambda>t. (t, 0)) closed)]
         = Some (CtxDone, c)"
proof -
  have s: "closes (startCtx g ctx now) = Some (c, Suc h)"
    using assms(1,3) by (simp add: closes_startCtx)
  have d: "\<not> not_after (map_option (\<lambda>t. (t, 0::nat)) closed) (Some (c, h))"
    using assms(4) by (cases closed) auto
  show ?thesis
    unfolding s assms(1)
    using assms(2) d by (intro selectgo_blocked_1) auto
qed

text \<open>The workers have all returned before the other two events.\<close>

lemma select_starters_first:
  assumes "closed = Some td" and "td < now + nat (startTimeout (opts g))"
    and "precedes td (done_at ctx)" and "now \<le> td"
  shows "selectgo now seed
           [(CtxDone, closes ctx), (StartCtxDone, closes (startCtx g ctx now)),
            (StartersDone, map_option (\<lambda>t. (t, 0)) closed)]
         = Some (StartersDone, td)"
proof -
  have c: "precedes td (map_option fst (closes ctx))"
    using assms(3) by (simp add: done_at_def)
  have s: "precedes td (map_option fst (closes (startCtx g ctx now)))"
    using c assms(2) by (cases "closes ctx") (auto simp: closes_startCtx)
  show ?thesis
  proof (cases "now < td")
    case True
    then show ?thesis
      unfolding assms(1) option.map
      using c s by (intro selectgo_blocked_3 precedes_not_after)
  next
    case False
    with assms(4) have "td = now" by simp
    then show ?thesis
      unfolding assms(1) option.map
      using c s by (simp add: selectgo_ready_3 precedes_not_closed)
  qed
qed

subsection \<open>What \<open>stop\<close> returns\<close>

lemma stop_cong:
  "stoppers g' = stoppers g \<Longrightarrow> stopTimeout (opts g') = stopTimeout (opts g) \<Longrightarrow>
   stop g' sch w = stop g sch w"
  by (simp add: stop_def stop_workers_def stopCtx_def)

lemma set_buffered: "set (buffered now t cs) \<subseteq> snd ` set (posts now cs)"
  by (auto simp: buffered_def)

text \<open>What a failure returned by \<open>stop\<close> is made of.\<close>

lemma stop_outcome:
  assumes "stop g sch w = Some (Some e, w')"
  shows "\<exists>es. e = JoinError es \<and>
           set es \<subseteq> insert ErrStopContextDeadlineExceeded
                      (snd ` set (posts (clock w) (stop_workers g (clock w))))"
proof -
  from assms obtain c t td where
    e: "errors_Join (map Some ((case c of StopCtxDone \<Rightarrow> [ErrStopContextDeadlineExceeded]
                                       | StoppersDone \<Rightarrow> [])
                              @ buffered (clock w) td (stop_workers g (clock w)))) = Some e"
    by (auto simp: stop_def Let_def simp del: map_append split: option.splits prod.splits if_splits)
  let ?errs = "(case c of StopCtxDone \<Rightarrow> [ErrStopContextDeadlineExceeded] | StoppersDone \<Rightarrow> [])
                 @ buffered (clock w) td (stop_workers g (clock w))"
  have ne: "?errs \<noteq> []"
    using e by (auto simp: errors_Join_def)
  have "e = JoinError ?errs"
    using e errors_Join_Some [OF ne] by simp
  moreover have "set ?errs \<subseteq> insert ErrStopContextDeadlineExceeded
                      (snd ` set (posts (clock w) (stop_workers g (clock w))))"
    using set_buffered [of "clock w" td "stop_workers g (clock w)"]
    by (cases c) auto
  ultimately show ?thesis by blast
qed

lemma stop_outcome_start_marker:
  assumes "stop g sch w = Some (Some e, w')" and "errors_Is e ErrStartContextDeadlineExceeded"
  shows "\<exists>f \<in> snd ` set (posts (clock w) (stop_workers g (clock w))).
           errors_Is f ErrStartContextDeadlineExceeded"
proof -
  from stop_outcome [OF assms(1)] obtain es where
    es: "e = JoinError es"
        "set es \<subseteq> insert ErrStopContextDeadlineExceeded
                     (snd ` set (posts (clock w) (stop_workers g (clock w))))"
    by blast
  from assms(2) es(1) obtain f where f: "f \<in> set es" "errors_Is f ErrStartContextDeadlineExceeded"
    by (auto simp: ErrStartContextDeadlineExceeded_def list_ex_iff)
  have "f \<noteq> ErrStopContextDeadlineExceeded"
    using f(2) by (auto simp: ErrStartContextDeadlineExceeded_def ErrStopContextDeadlineExceeded_def)
  with f es(2) show ?thesis by blast
qed

lemma posts_success: "\<forall>s\<in>set cs. \<exists>d. s = Returns d None \<Longrightarrow> posts now cs = []"
  by (induction now cs rule: posts.induct) auto

lemma buffered_no_posts: "posts now cs = [] \<Longrightarrow> buffered now t cs = []"
  by (simp add: buffered_def)

text \<open>
  The stop phase when every finalizer has returned before the stop deadline.
\<close>

lemma stop_in_time:
  assumes "wg_Wait (clock w) (stop_workers g (clock w)) = Some ts"
    and "ts < clock w + nat (stopTimeout (opts g))"
  shows "stop g sch w =
           Some (if buffered (clock w) ts (stop_workers g (clock w)) = [] then None
                 else Some (JoinError (buffered (clock w) ts (stop_workers g (clock w)))),
                 w\<lparr>stop_calls := Suc (stop_calls w), clock := ts\<rparr>)"
proof -
  have ge: "clock w \<le> ts" using assms(1) by (rule wg_Wait_ge)
  have sel: "selectgo (clock w) (stop_seed sch)
               [(StopCtxDone, closes (stopCtx g (clock w))), (StoppersDone, Some (ts, 0))]
             = Some (StoppersDone, ts)"
  proof (cases "clock w < ts")
    case True
    then show ?thesis
      unfolding closes_stopCtx using assms(2) by (intro selectgo2_blocked_2) auto
  next
    case False
    with ge have "ts = clock w" by simp
    then show ?thesis
      unfolding closes_stopCtx using assms(2) by (simp add: selectgo2_ready_2)
  qed
  show ?thesis
    unfolding stop_def Let_def assms(1) option.map sel
    by (simp add: errors_Join_Some)
qed

text \<open>
  The stop phase when the stop deadline fires before every finalizer has returned: it
  returns once the last finalizer has, with every failure sent until then.
\<close>

lemma stop_deadline_first:
  assumes "wg_Wait (clock w) (stop_workers g (clock w)) = Some ts"
    and "clock w + nat (stopTimeout (opts g)) < ts"
  shows "stop g sch w =
           Some (Some (JoinError (ErrStopContextDeadlineExceeded
                                  # buffered (clock w) ts (stop_workers g (clock w)))),
                 w\<lparr>stop_calls := Suc (stop_calls w), clock := ts\<rparr>)"
proof -
  define D where "D = clock w + nat (stopTimeout (opts g))"
  have sel: "selectgo (clock w) (stop_seed sch)
               [(StopCtxDone, closes (stopCtx g (clock w))), (StoppersDone, Some (ts, 0))]
             = Some (StopCtxDone, D)"
  proof (cases "clock w < D")
    case True
    then show ?thesis
      unfolding closes_stopCtx D_def [symmetric] using assms(2)
      by (intro selectgo2_blocked_1) (auto simp: D_def)
  next
    case False
    then have "D = clock w" by (simp add: D_def)
    then show ?thesis
      unfolding closes_stopCtx D_def [symmetric] using assms(2)
      by (simp add: selectgo2_ready_1 D_def)
  qed
  have "max D ts = ts" using assms(2) by (simp add: D_def)
  then show ?thesis
    unfolding stop_def Let_def assms(1) option.map sel
    using errors_Join_Some [of "ErrStopContextDeadlineExceeded # buffered (clock w) ts (stop_workers g (clock w))"]
    by simp
qed

text \<open>
  A finalizer that never returns keeps the stop phase from returning.
\<close>

lemma stop_never_returns:
  "wg_Wait (clock w) (stop_workers g (clock w)) = None \<Longrightarrow> stop g sch w = None"
  by (simp add: stop_def Let_def split: option.splits prod.splits)

subsection \<open>The caller's signal\<close>

lemma pick_two: "pick seed [x, y] = Some x \<or> pick seed [x, y] = Some y"
proof -
  have "seed mod Suc (Suc 0) = 0 \<or> seed mod Suc (Suc 0) = Suc 0" by arith
  then show ?thesis
    by (auto simp: pick_def)
qed

lemma select_tie:
  assumes "now < c" and "c < now + nat (startTimeout (opts g))" and "closes ctx = Some (c, h)"
  shows "selectgo now seed
           [(CtxDone, closes ctx), (StartCtxDone, closes (startCtx g ctx now)),
            (StartersDone, Some (c, 0))]
         \<in> {Some (CtxDone, c), Some (StartersDone, c)}"
proof -
  have s: "closes (startCtx g ctx now) = Some (c, Suc h)"
    using assms by (simp add: closes_startCtx)
  show ?thesis
  proof (cases h)
    case 0
    have "selectgo now seed
           [(CtxDone, Some (c, 0)), (StartCtxDone, Some (c, Suc 0)), (StartersDone, Some (c, 0))]
          = Option.bind (pick seed [(CtxDone, Some (c, 0)), (StartersDone, Some (c, 0))]) woken"
      using assms(1) by (simp add: selectgo_def)
    moreover have "Option.bind (pick seed [(CtxDone, Some (c, 0)), (StartersDone, Some (c, 0))]) woken
                   \<in> {Some (CtxDone, c), Some (StartersDone, c)}"
      using pick_two [of seed "(CtxDone, Some (c, 0::nat))" "(StartersDone, Some (c, 0::nat))"]
      by (elim disjE) simp_all
    ultimately show ?thesis
      unfolding s assms(3) 0 by simp
  next
    case (Suc k)
    then show ?thesis
      unfolding s assms(3) using assms(1)
      by (simp add: selectgo_def pick_def)
  qed
qed

lemma select_ready_some:
  assumes "closed_by now i1"
  shows "\<exists>a. selectgo now seed [(a1, i1), (a2, i2), (a3, i3)] = Some (a, now)"
proof -
  let ?ready = "filter (\<lambda>c. closed_by now (snd c)) [(a1, i1), (a2, i2), (a3, i3)]"
  have ne: "?ready \<noteq> []" using assms by simp
  then obtain x where "pick seed ?ready = Some x"
    by (auto simp: pick_def simp del: filter.simps)
  then show ?thesis
    using ne unfolding selectgo_def Let_def by (auto simp del: filter.simps)
qed

text \<open>
  The caller's signal fires while \<open>Wait\<close> is blocked (in its select, or on the
  signal after a clean start), before the start deadline, and no initializer has failed:
  the stop phase runs when the signal fires.
\<close>

lemma Wait_cancel_blocked:
  assumes "closes ctx = Some (c, h)" and "clock w < c"
    and "c < clock w + nat (startTimeout (opts g))"
    and "posts (clock w) (starters g) = []"
  shows "Wait g ctx sch w = stop g sch (w\<lparr>clock := c\<rparr>)"
proof -
  let ?sel = "selectgo (clock w) (wait_seed sch)
               [(CtxDone, closes ctx), (StartCtxDone, closes (startCtx g ctx (clock w))),
                (StartersDone, map_option (\<lambda>t. (t, 0)) (wg_Wait (clock w) (starters g)))]"
  have d: "done_at ctx = Some c" using assms(1) by (simp add: done_at_def)
  have b: "buffered (clock w) t (starters g) = []" for t
    using assms(4) by (rule buffered_no_posts)
  have starters: "Wait g ctx sch w = stop g sch (w\<lparr>clock := c\<rparr>)"
    if "?sel = Some (StartersDone, td)" "td \<le> c" for td
    using that d b by (simp add: Wait_def Let_def max_def)
  have cancel: "Wait g ctx sch w = stop g sch (w\<lparr>clock := c\<rparr>)"
    if "?sel = Some (CtxDone, c)"
    using that by (simp add: Wait_def Let_def)
  have "wg_Wait (clock w) (starters g) = None
        \<or> (\<exists>td. wg_Wait (clock w) (starters g) = Some td \<and> (c < td \<or> td = c \<or> td < c))"
    by (cases "wg_Wait (clock w) (starters g)") (simp, simp, arith)
  then consider (never) "wg_Wait (clock w) (starters g) = None"
    | (later) td where "wg_Wait (clock w) (starters g) = Some td" "c < td"
    | (same) "wg_Wait (clock w) (starters g) = Some c"
    | (earlier) td where "wg_Wait (clock w) (starters g) = Some td" "td < c"
    by auto
  then show ?thesis
  proof cases
    case never
    have "?sel = Some (CtxDone, c)"
      using assms(1-3) by (rule select_cancel_first) (simp add: never)
    then show ?thesis by (rule cancel)
  next
    case later
    have "?sel = Some (CtxDone, c)"
      using assms(1-3) by (rule select_cancel_first) (simp add: later)
    then show ?thesis by (rule cancel)
  next
    case same
    have "?sel \<in> {Some (CtxDone, c), Some (StartersDone, c)}"
      unfolding same option.map using assms(2,3,1) by (rule select_tie)
    then show ?thesis using cancel starters [of c] by auto
  next
    case earlier
    have "?sel = Some (StartersDone, td)"
      using earlier(1) _ _ wg_Wait_ge [OF earlier(1)]
      by (rule select_starters_first) (use earlier(2) assms(3) d in auto)
    then show ?thesis using starters [of td] earlier(2) by simp
  qed
qed

text \<open>
  The caller's signal is the first event and fires while \<open>Wait\<close> is blocked in its
  select: \<open>Wait\<close> returns what the stop phase returns.
\<close>

lemma Wait_cancel_first:
  assumes "closes ctx = Some (c, h)" and "clock w < c"
    and "c < clock w + nat (startTimeout (opts g))"
    and "precedes c (wg_Wait (clock w) (starters g))"
  shows "Wait g ctx sch w = stop g sch (w\<lparr>clock := c\<rparr>)"
  unfolding Wait_def Let_def select_cancel_first [OF assms] by simp

subsection \<open>Texts and identities\<close>

lemma errors_Is_refl: "errors_Is e e"
  by (cases e) simp_all

lemma split_lines_plain: "newline \<notin> set s \<Longrightarrow> split_lines s = [s]"
  by (induction s) auto

lemma split_lines_append:
  "newline \<notin> set s \<Longrightarrow> split_lines (s @ newline # r) = s # split_lines r"
  by (induction s) auto

lemma split_join_lines:
  "ss \<noteq> [] \<Longrightarrow> \<forall>s\<in>set ss. newline \<notin> set s \<Longrightarrow> split_lines (join_lines ss) = ss"
  by (induction ss rule: join_lines.induct) (auto simp: split_lines_plain split_lines_append)

lemma errors_Is_leaf: "errors_Is e (ErrorString a s) \<longleftrightarrow> ErrorString a s \<in> set (leaves e)"
  by (induction e) (auto simp: list_ex_iff)

lemma marker_one_line: "newline \<notin> set ''start context deadline exceeded''"
  by (simp add: newline_def)

lemma first_line: "newline \<notin> set s \<Longrightarrow> hd (split_lines (s @ newline # r)) = s"
  by (simp add: split_lines_append)

section \<open>The examples of the repository\<close>

text \<open>
  The five examples of the repository's test file, with one second as \<open>10^9\<close> ticks: the
  model returns the outcome whose text the example expects.
\<close>

lemma ExampleGroup_Wait_basic:
  "Wait (Add (Returns 0 None) (\<lambda>ctx. Returns 0 None) (NewGroup []))
        (WithTimeout Background 0 1000000000) sch w0
   = Some (None, \<lparr>clock = 1000000000, stop_calls = 1\<rparr>)"
  by (simp add: model_defs)

lemma ExampleGroup_Wait_startError:
  "map_option (map_option (split_lines \<circ> Error) \<circ> fst)
     (Wait (Add (Returns 0 (Some (ErrorString 2 ''start failed''))) (\<lambda>ctx. Returns 0 None) (NewGroup []))
        (WithTimeout Background 0 1000000000) sch w0)
   = Some (Some [''start failed''])"
  by (simp add: model_defs newline_def)

lemma ExampleGroup_Wait_startContextDeadlineExceeded:
  "map_option (map_option (split_lines \<circ> Error) \<circ> fst)
     (Wait (Add (Returns 100000000 None) (\<lambda>ctx. Returns 0 None)
              (NewGroup [WithStartTimeout 50000000]))
        (WithTimeout Background 0 100000000) sch w0)
   = Some (Some [''start context deadline exceeded''])"
  by (simp add: model_defs newline_def ErrStartContextDeadlineExceeded_def)

lemma ExampleGroup_Wait_stopError:
  "map_option (map_option (split_lines \<circ> Error) \<circ> fst)
     (Wait (Add (Returns 0 (Some (ErrorString 2 ''start failed'')))
                (\<lambda>ctx. Returns 0 (Some (ErrorString 3 ''stop failed''))) (NewGroup []))
        (WithTimeout Background 0 1000000000) sch w0)
   = Some (Some [''start failed'', ''stop failed''])"
  by (simp add: model_defs newline_def)

lemma ExampleGroup_Wait_stopContextDeadlineExceeded:
  "map_option (map_option (split_lines \<circ> Error) \<circ> fst)
     (Wait (Add (Returns 0 (Some (ErrorString 2 ''fail''))) (\<lambda>ctx. Returns 100000000 None)
              (NewGroup [WithStopTimeout 50000000]))
        (WithTimeout Background 0 1000000000) sch w0)
   = Some (Some [''fail'', ''stop context deadline exceeded''])"
  by (simp add: model_defs newline_def ErrStopContextDeadlineExceeded_def)

section \<open>The claims\<close>

text \<open>
  C1. The specification says: whenever the caller's signal fires before the start deadline
  and before all initializer workers have returned, \<open>Wait\<close> returns exactly what the
  stop phase returns, without the start-timeout marker. The code does not do this when
  the signal has fired before \<open>Wait\<close> reaches its select: the start context is derived
  from the caller's, so both channels are closed, and the runtime may take the case of the
  start context. Here the signal fired before the call, the initializer is still running
  (it returns at tick 5), the stop phase returns no failure, and \<open>Wait\<close> returns the
  start-timeout marker (runtime's choice 1); with the choice 0 it returns no failure.
  (When the signal fires while \<open>Wait\<close> is blocked in the select, the outcome is the
  stop phase's: \<open>Wait_cancel_first\<close>.)
\<close>

theorem Wait_cancelled_before_select:
  "done_at (External (Some 0)) = Some 0
   \<and> 0 < clock w0 + nat (startTimeout (opts starting_group))
   \<and> wg_Wait (clock w0) (starters starting_group) = Some 5
   \<and> stop starting_group (seeds 1 0) w0 = Some (None, \<lparr>clock = 0, stop_calls = 1\<rparr>)
   \<and> Wait starting_group (External (Some 0)) (seeds 1 0) w0
       = Some (Some ErrStartContextDeadlineExceeded, \<lparr>clock = 0, stop_calls = 1\<rparr>)
   \<and> Wait starting_group (External (Some 0)) (seeds 0 0) w0
       = Some (None, \<lparr>clock = 0, stop_calls = 1\<rparr>)"
  by (simp add: model_defs starting_group_def)

text \<open>
  C2. The specification says: when the stop deadline fires before all finalizer workers
  have returned, \<open>stop\<close> returns the marker followed only by the failures buffered at
  that moment, and does not wait for the workers still running. The code does wait: the
  loop over the failure channel ends only when the channel is closed, which happens after
  the last worker has returned (\<open>stop_deadline_first\<close>, \<open>stop_never_returns\<close>). Here
  the deadline fires at tick 50, nothing is buffered then, and \<open>stop\<close> returns at tick
  100 with the failure sent at tick 100 after the marker.
\<close>

theorem stop_waits_after_deadline:
  "closes (stopCtx late_group 0) = Some (50, 0)
   \<and> wg_Wait 0 (stop_workers late_group 0) = Some 100
   \<and> buffered 0 50 (stop_workers late_group 0) = []
   \<and> stop late_group (seeds 0 0) w0
       = Some (Some (JoinError [ErrStopContextDeadlineExceeded, ErrorString 21 ''late'']),
               \<lparr>clock = 100, stop_calls = 1\<rparr>)"
  by (simp add: model_defs late_group_def)

text \<open>
  C3. When the start deadline fires before the caller's signal and before all initializer
  workers have returned, \<open>Wait\<close> runs the stop phase at the deadline and returns the
  start-timeout marker joined with the stop phase's failure, marker first; when the stop
  phase returns no failure, it returns the marker alone. (\<open>Wait\<close> returns when the
  stop phase does.) In both cases the marker is the first failure of the outcome and its
  message the first line of the text.
\<close>

theorem Wait_start_deadline_first:
  assumes "precedes (clock w + nat (startTimeout (opts g))) (done_at ctx)"
    and "precedes (clock w + nat (startTimeout (opts g))) (wg_Wait (clock w) (starters g))"
  shows "Wait g ctx sch w =
           (case stop g sch (w\<lparr>clock := clock w + nat (startTimeout (opts g))\<rparr>) of
              None \<Rightarrow> None
            | Some (None, w') \<Rightarrow> Some (Some ErrStartContextDeadlineExceeded, w')
            | Some (Some e, w') \<Rightarrow>
                Some (Some (JoinError [ErrStartContextDeadlineExceeded, e]), w'))
         \<and> (\<forall>r w'. Wait g ctx sch w = Some (r, w') \<longrightarrow>
               (\<exists>e. r = Some e
                  \<and> hd (leaves e) = ErrStartContextDeadlineExceeded
                  \<and> hd (split_lines (Error e)) = ''start context deadline exceeded''))"
proof -
  have eq: "Wait g ctx sch w =
           (case stop g sch (w\<lparr>clock := clock w + nat (startTimeout (opts g))\<rparr>) of
              None \<Rightarrow> None
            | Some (None, w') \<Rightarrow> Some (Some ErrStartContextDeadlineExceeded, w')
            | Some (Some e, w') \<Rightarrow>
                Some (Some (JoinError [ErrStartContextDeadlineExceeded, e]), w'))"
    unfolding Wait_def Let_def select_deadline_first [OF assms]
    by (simp add: errors_Join_def split: option.splits)
  have m: "hd (leaves ErrStartContextDeadlineExceeded) = ErrStartContextDeadlineExceeded"
    "hd (split_lines (Error ErrStartContextDeadlineExceeded)) = ''start context deadline exceeded''"
    "hd (leaves (JoinError [ErrStartContextDeadlineExceeded, e])) = ErrStartContextDeadlineExceeded"
    "hd (split_lines (Error (JoinError [ErrStartContextDeadlineExceeded, e])))
       = ''start context deadline exceeded''" for e
    using first_line [OF marker_one_line] split_lines_plain [OF marker_one_line]
    by (simp_all add: ErrStartContextDeadlineExceeded_def)
  have "\<exists>e. r = Some e
          \<and> hd (leaves e) = ErrStartContextDeadlineExceeded
          \<and> hd (split_lines (Error e)) = ''start context deadline exceeded''"
    if "Wait g ctx sch w = Some (r, w')" for r w'
    using that m unfolding eq
    by (auto split: option.splits)
  with eq show ?thesis by blast
qed

theorem Wait_start_deadline_first_witness:
  "precedes (clock w0 + nat (startTimeout (opts slow_start_group))) (done_at (External (Some 100)))
   \<and> precedes (clock w0 + nat (startTimeout (opts slow_start_group)))
        (wg_Wait (clock w0) (starters slow_start_group))
   \<and> Wait slow_start_group (External (Some 100)) (seeds 0 0) w0
       = Some (Some ErrStartContextDeadlineExceeded, \<lparr>clock = 50, stop_calls = 1\<rparr>)"
proof -
  have h1: "precedes (clock w0 + nat (startTimeout (opts slow_start_group))) (done_at (External (Some 100)))"
    by (simp add: model_defs slow_start_group_def)
  have h2: "precedes (clock w0 + nat (startTimeout (opts slow_start_group)))
        (wg_Wait (clock w0) (starters slow_start_group))"
    by (simp add: model_defs slow_start_group_def)
  have s: "stop slow_start_group (seeds 0 0) (w0\<lparr>clock := clock w0 + nat (startTimeout (opts slow_start_group))\<rparr>)
     = Some (None, \<lparr>clock = 50, stop_calls = 1\<rparr>)"
    by (simp add: model_defs slow_start_group_def)
  show ?thesis
    using h1 h2 Wait_start_deadline_first [OF h1 h2, of "seeds 0 0"] by (simp add: s)
qed

text \<open>
  C4. When all initializer workers have returned before the start deadline and before the
  caller's signal, and at least one has sent a failure, \<open>Wait\<close> runs the stop phase
  once, and returns the join of the start failures, in the order they were sent, followed by
  the stop phase's failure if there is one.
\<close>

theorem Wait_start_failures:
  assumes "wg_Wait (clock w) (starters g) = Some td"
    and "td < clock w + nat (startTimeout (opts g))"
    and "precedes td (done_at ctx)"
    and "buffered (clock w) td (starters g) \<noteq> []"
  shows "Wait g ctx sch w =
           (case stop g sch (w\<lparr>clock := td\<rparr>) of
              None \<Rightarrow> None
            | Some (stopErr, w') \<Rightarrow>
                Some (Some (JoinError (buffered (clock w) td (starters g)
                                       @ (case stopErr of None \<Rightarrow> [] | Some e \<Rightarrow> [e]))), w'))
         \<and> (\<forall>r w'. Wait g ctx sch w = Some (r, w') \<longrightarrow> stop_calls w' = Suc (stop_calls w))"
proof -
  have sel: "selectgo (clock w) (wait_seed sch)
               [(CtxDone, closes ctx), (StartCtxDone, closes (startCtx g ctx (clock w))),
                (StartersDone, map_option (\<lambda>t. (t, 0)) (wg_Wait (clock w) (starters g)))]
             = Some (StartersDone, td)"
    using assms(1-3) wg_Wait_ge [OF assms(1)] by (rule select_starters_first)
  have eq: "Wait g ctx sch w =
           (case stop g sch (w\<lparr>clock := td\<rparr>) of
              None \<Rightarrow> None
            | Some (stopErr, w') \<Rightarrow>
                Some (Some (JoinError (buffered (clock w) td (starters g)
                                       @ (case stopErr of None \<Rightarrow> [] | Some e \<Rightarrow> [e]))), w'))"
    unfolding Wait_def Let_def sel
    using assms(4)
    by (simp add: errors_Join_Some errors_Join_Some_append split: option.splits)
  have "stop_calls w' = Suc (stop_calls w)" if "Wait g ctx sch w = Some (r, w')" for r w'
    using that unfolding eq
    by (auto split: option.splits dest: stop_counts_at)
  with eq show ?thesis by blast
qed

theorem Wait_start_failures_witness:
  "wg_Wait (clock w0) (starters failing_group) = Some 3
   \<and> 3 < clock w0 + nat (startTimeout (opts failing_group))
   \<and> precedes 3 (done_at (External (Some 9)))
   \<and> buffered (clock w0) 3 (starters failing_group)
       = [ErrorString 12 ''port taken'', ErrorString 11 ''db down'']
   \<and> stop failing_group (seeds 0 0) (w0\<lparr>clock := 3\<rparr>)
       = Some (Some (JoinError [ErrorString 13 ''flush failed'']), \<lparr>clock = 7, stop_calls = 1\<rparr>)
   \<and> Wait failing_group (External (Some 9)) (seeds 0 0) w0
       = Some (Some (JoinError [ErrorString 12 ''port taken'', ErrorString 11 ''db down'',
                                JoinError [ErrorString 13 ''flush failed'']]),
               \<lparr>clock = 7, stop_calls = 1\<rparr>)"
proof -
  have h1: "wg_Wait (clock w0) (starters failing_group) = Some 3"
    by (simp add: model_defs failing_group_def)
  have h2: "3 < clock w0 + nat (startTimeout (opts failing_group))"
    by (simp add: model_defs failing_group_def)
  have h3: "precedes 3 (done_at (External (Some 9)))"
    by (simp add: model_defs)
  have b: "buffered (clock w0) 3 (starters failing_group)
       = [ErrorString 12 ''port taken'', ErrorString 11 ''db down'']"
    by (simp add: model_defs failing_group_def)
  have h4: "buffered (clock w0) 3 (starters failing_group) \<noteq> []"
    by (simp add: b)
  have s: "stop failing_group (seeds 0 0) (w0\<lparr>clock := 3\<rparr>)
       = Some (Some (JoinError [ErrorString 13 ''flush failed'']), \<lparr>clock = 7, stop_calls = 1\<rparr>)"
    by (simp add: model_defs failing_group_def)
  show ?thesis
    using h1 h2 h3 b s Wait_start_failures [OF h1 h2 h3 h4, of "seeds 0 0"] by simp
qed

text \<open>
  C5, as amended. When every initializer and every finalizer returns success, the
  caller's signal fires after \<open>Wait\<close> was called and before the start deadline, and
  every finalizer has returned before the stop deadline, \<open>Wait\<close> returns no failure,
  at the tick the last finalizer returns.
\<close>

theorem Wait_clean_run:
  assumes "\<forall>s\<in>set (starters g). \<exists>d. s = Returns d None"
    and "\<forall>a\<in>set (stoppers g). \<exists>d. a (stopCtx g c) = Returns d None"
    and "closes ctx = Some (c, h)" and "clock w < c"
    and "c < clock w + nat (startTimeout (opts g))"
    and "wg_Wait c (stop_workers g c) = Some ts"
    and "ts < c + nat (stopTimeout (opts g))"
  shows "Wait g ctx sch w = Some (None, w\<lparr>stop_calls := Suc (stop_calls w), clock := ts\<rparr>)"
proof -
  have p: "posts (clock w) (starters g) = []"
    using assms(1) by (rule posts_success)
  have "\<forall>s\<in>set (stop_workers g c). \<exists>d. s = Returns d None"
    using assms(2) by (auto simp: stop_workers_def)
  then have "posts c (stop_workers g c) = []"
    by (rule posts_success)
  then have q: "buffered c ts (stop_workers g c) = []"
    by (rule buffered_no_posts)
  have "Wait g ctx sch w = stop g sch (w\<lparr>clock := c\<rparr>)"
    using assms(3-5) p by (rule Wait_cancel_blocked)
  also have "\<dots> = Some (None, w\<lparr>stop_calls := Suc (stop_calls w), clock := ts\<rparr>)"
    using stop_in_time [of "w\<lparr>clock := c\<rparr>" g ts sch] assms(6,7) q by simp
  finally show ?thesis .
qed

theorem Wait_clean_run_witness:
  "closes (External (Some 20)) = Some (20, 0) \<and> clock w0 < 20
   \<and> 20 < clock w0 + nat (startTimeout (opts healthy_group))
   \<and> wg_Wait 20 (stop_workers healthy_group 20) = Some 27
   \<and> 27 < 20 + nat (stopTimeout (opts healthy_group))
   \<and> Wait healthy_group (External (Some 20)) (seeds 0 0) w0
       = Some (None, \<lparr>clock = 27, stop_calls = 1\<rparr>)"
proof -
  have h1: "\<forall>s\<in>set (starters healthy_group). \<exists>d. s = Returns d None"
    by (simp add: model_defs healthy_group_def)
  have h2: "\<forall>a\<in>set (stoppers healthy_group). \<exists>d. a (stopCtx healthy_group 20) = Returns d None"
    by (simp add: model_defs healthy_group_def)
  have h3: "closes (External (Some 20)) = Some (20, 0)" by simp
  have h4: "clock w0 < 20" by (simp add: w0_def)
  have h5: "20 < clock w0 + nat (startTimeout (opts healthy_group))"
    by (simp add: model_defs healthy_group_def)
  have h6: "wg_Wait 20 (stop_workers healthy_group 20) = Some 27"
    by (simp add: model_defs healthy_group_def)
  have h7: "27 < 20 + nat (stopTimeout (opts healthy_group))"
    by (simp add: model_defs healthy_group_def)
  show ?thesis
    using h3 h4 h5 h6 h7 Wait_clean_run [OF h1 h2 h3 h4 h5 h6 h7, of "seeds 0 0"]
    by (simp add: w0_def)
qed

text \<open>
  C5 as it was stated (every initializer and every finalizer returns success, and the
  caller's signal fires before the start deadline and before the stop deadline) fails:
  here the finalizer returns success 100 ticks after it was called, the stop deadline is
  50 ticks, the signal fires at tick 10, before both deadlines, and the outcome is the
  stop-timeout marker.
\<close>

theorem Wait_clean_run_counterexample:
  "starters slow_stop_group = [Returns 1 None]
   \<and> stop_workers slow_stop_group 10 = [Returns 100 None]
   \<and> done_at (External (Some 10)) = Some 10
   \<and> 10 < clock w0 + nat (startTimeout (opts slow_stop_group))
   \<and> 10 < 10 + nat (stopTimeout (opts slow_stop_group))
   \<and> Wait slow_stop_group (External (Some 10)) (seeds 0 0) w0
       = Some (Some (JoinError [ErrStopContextDeadlineExceeded]), \<lparr>clock = 110, stop_calls = 1\<rparr>)"
  by (simp add: model_defs slow_stop_group_def)

text \<open>
  C6. The specification says: with no component registered and a caller's signal that is
  already cancelled, \<open>Wait\<close> returns no failure whatever the runtime chooses. The code
  returns the start-timeout marker when the runtime takes the case of the start context,
  whose channel is closed as well (choice 1); with the choices 0 and 2 it returns no
  failure.
\<close>

theorem Wait_empty_group_cancelled:
  "starters (NewGroup []) = [] \<and> stoppers (NewGroup []) = []
   \<and> done_at (External (Some 0)) = Some 0
   \<and> Wait (NewGroup []) (External (Some 0)) (seeds 0 0) w0
       = Some (None, \<lparr>clock = 0, stop_calls = 1\<rparr>)
   \<and> Wait (NewGroup []) (External (Some 0)) (seeds 1 0) w0
       = Some (Some ErrStartContextDeadlineExceeded, \<lparr>clock = 0, stop_calls = 1\<rparr>)
   \<and> Wait (NewGroup []) (External (Some 0)) (seeds 2 0) w0
       = Some (None, \<lparr>clock = 0, stop_calls = 1\<rparr>)"
  by (simp add: model_defs)

text \<open>
  C7. The signal that \<open>stop\<close> hands to the finalizers is made from the background
  context at the tick \<open>stop\<close> is entered: it fires exactly one stop timeout later (the
  stop timeout is its only bound), its only ancestor is the background context, and every
  finalizer is called with it. So a caller's signal that expired before \<open>Wait\<close> was
  called does not cut the stop phase short: when the finalizers return within the stop
  timeout, \<open>stop\<close> returns their failures without a timeout marker, and \<open>Wait\<close>
  returns when the last of them has. (What \<open>stop\<close> does once its signal has fired is
  the matter of C2.)
\<close>

theorem stop_signal_fresh:
  "closes (stopCtx g t) = Some (t + nat (stopTimeout (opts g)), 0)
   \<and> (derived_from (stopCtx g t) anc \<longleftrightarrow> anc = stopCtx g t \<or> anc = Background)
   \<and> stop_workers g t = map (\<lambda>a. a (stopCtx g t)) (rev (stoppers g))
   \<and> (\<forall>ctx sch w c h ts.
         closes ctx = Some (c, h) \<and> c \<le> clock w
         \<and> wg_Wait (clock w) (stop_workers g (clock w)) = Some ts
         \<and> ts < clock w + nat (stopTimeout (opts g))
         \<longrightarrow> stop g sch w =
               Some (if buffered (clock w) ts (stop_workers g (clock w)) = [] then None
                     else Some (JoinError (buffered (clock w) ts (stop_workers g (clock w)))),
                     w\<lparr>stop_calls := Suc (stop_calls w), clock := ts\<rparr>)
             \<and> (\<exists>r. Wait g ctx sch w
                       = Some (r, w\<lparr>stop_calls := Suc (stop_calls w), clock := ts\<rparr>)))"
proof -
  have one: "closes (stopCtx g t) = Some (t + nat (stopTimeout (opts g)), 0)"
    by (rule closes_stopCtx)
  have two: "derived_from (stopCtx g t) anc \<longleftrightarrow> anc = stopCtx g t \<or> anc = Background"
    by (auto simp: stopCtx_def WithTimeout_def)
  have three: "stop_workers g t = map (\<lambda>a. a (stopCtx g t)) (rev (stoppers g))"
    by (simp add: stop_workers_def)
  have four: "stop g sch w =
               Some (if buffered (clock w) ts (stop_workers g (clock w)) = [] then None
                     else Some (JoinError (buffered (clock w) ts (stop_workers g (clock w)))),
                     w\<lparr>stop_calls := Suc (stop_calls w), clock := ts\<rparr>)
             \<and> (\<exists>r. Wait g ctx sch w
                       = Some (r, w\<lparr>stop_calls := Suc (stop_calls w), clock := ts\<rparr>))"
    if c: "closes ctx = Some (c, h)" "c \<le> clock w"
      and ts: "wg_Wait (clock w) (stop_workers g (clock w)) = Some ts"
              "ts < clock w + nat (stopTimeout (opts g))"
    for ctx sch w c h ts
  proof -
    let ?w' = "w\<lparr>stop_calls := Suc (stop_calls w), clock := ts\<rparr>"
    from stop_in_time [OF ts] obtain x where s: "stop g sch w = Some (x, ?w')"
      and x: "x = (if buffered (clock w) ts (stop_workers g (clock w)) = [] then None
                     else Some (JoinError (buffered (clock w) ts (stop_workers g (clock w)))))"
      by simp
    have "closed_by (clock w) (closes ctx)" using c by simp
    then have "\<exists>a. selectgo (clock w) (wait_seed sch)
               [(CtxDone, closes ctx), (StartCtxDone, closes (startCtx g ctx (clock w))),
                (StartersDone, map_option (\<lambda>t. (t, 0)) (wg_Wait (clock w) (starters g)))]
             = Some (a, clock w)"
      by (rule select_ready_some)
    then obtain a where sel: "selectgo (clock w) (wait_seed sch)
               [(CtxDone, closes ctx), (StartCtxDone, closes (startCtx g ctx (clock w))),
                (StartersDone, map_option (\<lambda>t. (t, 0)) (wg_Wait (clock w) (starters g)))]
             = Some (a, clock w)" ..
    have d: "done_at ctx = Some c" using c(1) by (simp add: done_at_def)
    have m: "max (clock w) c = clock w" using c(2) by simp
    have "\<exists>r. Wait g ctx sch w = Some (r, ?w')"
      unfolding Wait_def Let_def sel
      by (cases a) (simp_all add: s d m)
    with s x show ?thesis by simp
  qed
  from one two three four show ?thesis by blast
qed

theorem stop_signal_fresh_witness:
  "closes (stopCtx healthy_group 40) = Some (15000000040, 0)
   \<and> closes (External (Some 3)) = Some (3, 0) \<and> 3 \<le> clock (w0\<lparr>clock := 40\<rparr>)
   \<and> wg_Wait 40 (stop_workers healthy_group 40) = Some 47
   \<and> stop healthy_group (seeds 0 0) (w0\<lparr>clock := 40\<rparr>) = Some (None, \<lparr>clock = 47, stop_calls = 1\<rparr>)
   \<and> Wait healthy_group (External (Some 3)) (seeds 0 0) (w0\<lparr>clock := 40\<rparr>)
       = Some (None, \<lparr>clock = 47, stop_calls = 1\<rparr>)"
proof -
  have h1: "closes (External (Some 3)) = Some (3, 0)" by simp
  have h2: "3 \<le> clock (w0\<lparr>clock := 40\<rparr>)" by simp
  have h3: "wg_Wait (clock (w0\<lparr>clock := 40\<rparr>))
              (stop_workers healthy_group (clock (w0\<lparr>clock := 40\<rparr>))) = Some 47"
    by (simp add: model_defs healthy_group_def)
  have h4: "47 < clock (w0\<lparr>clock := 40\<rparr>) + nat (stopTimeout (opts healthy_group))"
    by (simp add: model_defs healthy_group_def)
  have b: "buffered 40 47 (stop_workers healthy_group 40) = []"
    by (simp add: model_defs healthy_group_def)
  have w: "Wait healthy_group (External (Some 3)) (seeds 0 0) (w0\<lparr>clock := 40\<rparr>)
       = Some (None, \<lparr>clock = 47, stop_calls = 1\<rparr>)"
    by (simp add: model_defs healthy_group_def)
  from stop_signal_fresh [of healthy_group 40 Background]
  have "closes (stopCtx healthy_group 40) = Some (40 + nat (stopTimeout (opts healthy_group)), 0)"
    and "stop healthy_group (seeds 0 0) (w0\<lparr>clock := 40\<rparr>) =
               Some (if buffered (clock (w0\<lparr>clock := 40\<rparr>)) 47 (stop_workers healthy_group (clock (w0\<lparr>clock := 40\<rparr>))) = [] then None
                     else Some (JoinError (buffered (clock (w0\<lparr>clock := 40\<rparr>)) 47 (stop_workers healthy_group (clock (w0\<lparr>clock := 40\<rparr>))))),
                     (w0\<lparr>clock := 40\<rparr>)\<lparr>stop_calls := Suc (stop_calls (w0\<lparr>clock := 40\<rparr>)), clock := 47\<rparr>)"
    using h1 h2 h3 h4 by blast+
  then show ?thesis
    using h1 h3 w b by (simp add: model_defs healthy_group_def)
qed

text \<open>
  C8. Joining no failure gives nil. Joining one or more failures gives a value whose text
  is their messages in the order given, separated by newlines (so each message that has
  no newline of its own is one line of the text), and in which \<open>errors.Is\<close> finds each
  of them, and finds a marker exactly when one of the joined failures is it or holds it.
  The two markers have the fixed texts and are told apart by identity.
\<close>

theorem errors_Join_aggregates:
  "errors_Join [] = None
   \<and> (es \<noteq> [] \<longrightarrow>
        errors_Join (map Some es) = Some (JoinError es)
        \<and> Error (JoinError es) = join_lines (map Error es)
        \<and> (\<forall>e\<in>set es. errors_Is (JoinError es) e)
        \<and> ((\<forall>e\<in>set es. newline \<notin> set (Error e)) \<longrightarrow>
             split_lines (Error (JoinError es)) = map Error es))
   \<and> (errors_Is (JoinError es) ErrStartContextDeadlineExceeded
        \<longleftrightarrow> ErrStartContextDeadlineExceeded \<in> set (concat (map leaves es)))
   \<and> (errors_Is (JoinError es) ErrStopContextDeadlineExceeded
        \<longleftrightarrow> ErrStopContextDeadlineExceeded \<in> set (concat (map leaves es)))
   \<and> Error ErrStartContextDeadlineExceeded = ''start context deadline exceeded''
   \<and> Error ErrStopContextDeadlineExceeded = ''stop context deadline exceeded''
   \<and> \<not> errors_Is ErrStartContextDeadlineExceeded ErrStopContextDeadlineExceeded
   \<and> \<not> errors_Is ErrStopContextDeadlineExceeded ErrStartContextDeadlineExceeded"
proof -
  have a: "errors_Join [] = None" by (simp add: errors_Join_def)
  have b: "errors_Join (map Some es) = Some (JoinError es)" if "es \<noteq> []"
    using that by (rule errors_Join_Some)
  have c: "Error (JoinError es) = join_lines (map Error es)" by simp
  have d: "\<forall>e\<in>set es. errors_Is (JoinError es) e"
    by (auto simp: list_ex_iff intro: errors_Is_refl)
  have e: "split_lines (Error (JoinError es)) = map Error es"
    if "es \<noteq> []" "\<forall>e\<in>set es. newline \<notin> set (Error e)"
    using that split_join_lines [of "map Error es"] by simp
  have f: "Error ErrStartContextDeadlineExceeded = ''start context deadline exceeded''"
    "Error ErrStopContextDeadlineExceeded = ''stop context deadline exceeded''"
    "\<not> errors_Is ErrStartContextDeadlineExceeded ErrStopContextDeadlineExceeded"
    "\<not> errors_Is ErrStopContextDeadlineExceeded ErrStartContextDeadlineExceeded"
    by (simp_all add: ErrStartContextDeadlineExceeded_def ErrStopContextDeadlineExceeded_def)
  have g: "errors_Is (JoinError es) ErrStartContextDeadlineExceeded
        \<longleftrightarrow> ErrStartContextDeadlineExceeded \<in> set (concat (map leaves es))"
    "errors_Is (JoinError es) ErrStopContextDeadlineExceeded
        \<longleftrightarrow> ErrStopContextDeadlineExceeded \<in> set (concat (map leaves es))"
    using errors_Is_leaf [of "JoinError es"]
    by (simp_all add: ErrStartContextDeadlineExceeded_def ErrStopContextDeadlineExceeded_def)
  from a b c d e f g show ?thesis by blast
qed

theorem errors_Join_aggregates_witness:
  "[ErrorString 5 ''fail'', ErrStopContextDeadlineExceeded] \<noteq> []
   \<and> errors_Join (map Some [ErrorString 5 ''fail'', ErrStopContextDeadlineExceeded])
       = Some (JoinError [ErrorString 5 ''fail'', ErrStopContextDeadlineExceeded])
   \<and> split_lines (Error (JoinError [ErrorString 5 ''fail'', ErrStopContextDeadlineExceeded]))
       = [''fail'', ''stop context deadline exceeded'']
   \<and> errors_Is (JoinError [ErrorString 5 ''fail'', ErrStopContextDeadlineExceeded])
        ErrStopContextDeadlineExceeded
   \<and> \<not> errors_Is (JoinError [ErrorString 5 ''fail'', ErrStopContextDeadlineExceeded])
          ErrStartContextDeadlineExceeded"
proof -
  have ne: "[ErrorString 5 ''fail'', ErrStopContextDeadlineExceeded] \<noteq> []" by simp
  have nl: "\<forall>e\<in>set [ErrorString 5 ''fail'', ErrStopContextDeadlineExceeded]. newline \<notin> set (Error e)"
    by (simp add: ErrStopContextDeadlineExceeded_def newline_def)
  have no: "\<not> errors_Is (JoinError [ErrorString 5 ''fail'', ErrStopContextDeadlineExceeded])
          ErrStartContextDeadlineExceeded"
    by (simp add: ErrStartContextDeadlineExceeded_def ErrStopContextDeadlineExceeded_def)
  from errors_Join_aggregates [of "[ErrorString 5 ''fail'', ErrStopContextDeadlineExceeded]"] ne nl
  have "errors_Join (map Some [ErrorString 5 ''fail'', ErrStopContextDeadlineExceeded])
          = Some (JoinError [ErrorString 5 ''fail'', ErrStopContextDeadlineExceeded])"
    and "split_lines (Error (JoinError [ErrorString 5 ''fail'', ErrStopContextDeadlineExceeded]))
          = map Error [ErrorString 5 ''fail'', ErrStopContextDeadlineExceeded]"
    and "\<forall>e\<in>set [ErrorString 5 ''fail'', ErrStopContextDeadlineExceeded].
           errors_Is (JoinError [ErrorString 5 ''fail'', ErrStopContextDeadlineExceeded]) e"
    by blast+
  then show ?thesis
    using no by (simp add: ErrStopContextDeadlineExceeded_def)
qed

text \<open>
  C9. On every path on which \<open>Wait\<close> returns, the stop phase has been entered exactly
  once in between.
\<close>

theorem Wait_stops_exactly_once:
  "Wait g ctx sch w = Some (r, w') \<Longrightarrow> stop_calls w' = Suc (stop_calls w)"
proof -
  assume r: "Wait g ctx sch w = Some (r, w')"
  let ?sel = "selectgo (clock w) (wait_seed sch)
                [(CtxDone, closes ctx),
                 (StartCtxDone, closes (startCtx g ctx (clock w))),
                 (StartersDone, map_option (\<lambda>t. (t, 0)) (wg_Wait (clock w) (starters g)))]"
  from r obtain a t where sel: "?sel = Some (a, t)"
    by (cases ?sel) (auto simp: Wait_def Let_def)
  show ?thesis
  proof (cases a)
    case CtxDone
    with r sel show ?thesis
      by (simp add: Wait_def Let_def stop_counts_at)
  next
    case StartCtxDone
    with r sel show ?thesis
      by (auto simp: Wait_def Let_def split: option.splits if_splits dest: stop_counts_at)
  next
    case StartersDone
    with r sel show ?thesis
      by (auto simp: Wait_def Let_def split: option.splits if_splits dest: stop_counts_at)
  qed
qed

theorem Wait_stops_exactly_once_witness:
  "Wait failing_group (External (Some 9)) (seeds 0 0) w0
     = Some (Some (JoinError [ErrorString 12 ''port taken'', ErrorString 11 ''db down'',
                              JoinError [ErrorString 13 ''flush failed'']]),
             \<lparr>clock = 7, stop_calls = 1\<rparr>)
   \<and> stop_calls \<lparr>clock = 7, stop_calls = 1\<rparr> = Suc (stop_calls w0)"
proof -
  have r: "Wait failing_group (External (Some 9)) (seeds 0 0) w0
     = Some (Some (JoinError [ErrorString 12 ''port taken'', ErrorString 11 ''db down'',
                              JoinError [ErrorString 13 ''flush failed'']]),
             \<lparr>clock = 7, stop_calls = 1\<rparr>)"
    by (simp add: model_defs failing_group_def)
  from Wait_stops_exactly_once [OF r] r show ?thesis by simp
qed

text \<open>
  C10. When all initializer workers have returned without a failure before the start
  deadline and before the caller's signal, \<open>Wait\<close> blocks on the caller's signal
  alone and returns what the stop phase, run when that signal fires, returns; the start
  timeout has no further effect (any other value past the workers' return gives the same
  result); and the start-timeout marker is in the outcome only where a finalizer itself
  returned it.
\<close>

theorem Wait_clean_start:
  assumes "wg_Wait (clock w) (starters g) = Some td"
    and "buffered (clock w) td (starters g) = []"
    and "td < clock w + nat (startTimeout (opts g))"
    and "precedes td (done_at ctx)"
  shows "Wait g ctx sch w =
           (case done_at ctx of None \<Rightarrow> None | Some c \<Rightarrow> stop g sch (w\<lparr>clock := c\<rparr>))
         \<and> (\<forall>v. td < clock w + nat v \<longrightarrow>
               Wait (g\<lparr>opts := (opts g)\<lparr>startTimeout := v\<rparr>\<rparr>) ctx sch w = Wait g ctx sch w)
         \<and> (\<forall>e w'. Wait g ctx sch w = Some (Some e, w')
                    \<and> errors_Is e ErrStartContextDeadlineExceeded \<longrightarrow>
               (\<exists>c f. done_at ctx = Some c
                     \<and> f \<in> snd ` set (posts c (stop_workers g c))
                     \<and> errors_Is f ErrStartContextDeadlineExceeded))"
proof -
  have eq: "Wait g' ctx sch w =
           (case done_at ctx of None \<Rightarrow> None | Some c \<Rightarrow> stop g' sch (w\<lparr>clock := c\<rparr>))"
    if "starters g' = starters g" "td < clock w + nat (startTimeout (opts g'))" for g'
  proof -
    have sel: "selectgo (clock w) (wait_seed sch)
               [(CtxDone, closes ctx), (StartCtxDone, closes (startCtx g' ctx (clock w))),
                (StartersDone, map_option (\<lambda>t. (t, 0)) (wg_Wait (clock w) (starters g)))]
             = Some (StartersDone, td)"
      using assms(1) that(2) assms(4) wg_Wait_ge [OF assms(1)] by (rule select_starters_first)
    have "max td c = c" if "done_at ctx = Some c" for c
      using that assms(4) by simp
    then show ?thesis
      unfolding Wait_def Let_def that(1) sel
      using assms(2) by (simp split: option.splits)
  qed
  have one: "Wait g ctx sch w =
           (case done_at ctx of None \<Rightarrow> None | Some c \<Rightarrow> stop g sch (w\<lparr>clock := c\<rparr>))"
    using eq [of g] assms(3) by simp
  have two: "Wait (g\<lparr>opts := (opts g)\<lparr>startTimeout := v\<rparr>\<rparr>) ctx sch w = Wait g ctx sch w"
    if "td < clock w + nat v" for v
  proof -
    have "stop (g\<lparr>opts := (opts g)\<lparr>startTimeout := v\<rparr>\<rparr>) sch u = stop g sch u" for u
      by (rule stop_cong) simp_all
    then show ?thesis
      using eq [of "g\<lparr>opts := (opts g)\<lparr>startTimeout := v\<rparr>\<rparr>"] that one
      by (simp split: option.splits)
  qed
  have three: "\<exists>c f. done_at ctx = Some c
                     \<and> f \<in> snd ` set (posts c (stop_workers g c))
                     \<and> errors_Is f ErrStartContextDeadlineExceeded"
    if r: "Wait g ctx sch w = Some (Some e, w')" and m: "errors_Is e ErrStartContextDeadlineExceeded"
    for e w'
  proof -
    from r one obtain c where c: "done_at ctx = Some c"
      and s: "stop g sch (w\<lparr>clock := c\<rparr>) = Some (Some e, w')"
      by (cases "done_at ctx") auto
    from stop_outcome_start_marker [OF s m] c show ?thesis by auto
  qed
  from one two three show ?thesis by blast
qed

theorem Wait_clean_start_witness:
  "wg_Wait (clock w0) (starters healthy_group) = Some 0
   \<and> buffered (clock w0) 0 (starters healthy_group) = []
   \<and> 0 < clock w0 + nat (startTimeout (opts healthy_group))
   \<and> precedes 0 (done_at (External (Some 20000000000)))
   \<and> Wait healthy_group (External (Some 20000000000)) (seeds 0 0) w0
       = Some (None, \<lparr>clock = 20000000007, stop_calls = 1\<rparr>)"
proof -
  have h1: "wg_Wait (clock w0) (starters healthy_group) = Some 0"
    by (simp add: model_defs healthy_group_def)
  have h2: "buffered (clock w0) 0 (starters healthy_group) = []"
    by (simp add: model_defs healthy_group_def)
  have h3: "0 < clock w0 + nat (startTimeout (opts healthy_group))"
    by (simp add: model_defs healthy_group_def)
  have h4: "precedes 0 (done_at (External (Some 20000000000)))"
    by (simp add: model_defs)
  have s: "stop healthy_group (seeds 0 0) (w0\<lparr>clock := 20000000000\<rparr>)
             = Some (None, \<lparr>clock = 20000000007, stop_calls = 1\<rparr>)"
    by (simp add: model_defs healthy_group_def)
  have d: "done_at (External (Some 20000000000)) = Some 20000000000"
    by (simp add: model_defs)
  show ?thesis
    using h1 h2 h3 h4 Wait_clean_start [OF h1 h2 h3 h4, of "seeds 0 0"] by (simp add: s d)
qed

end
